theory Spec2Isabelle
  imports Complex_Main "HOL-Library.Word"
begin

section \<open>Data model (frontend/src/types/index.ts)\<close>

text \<open>
  The \<^verbatim>\<open>Task\<close> interface. The field \<^verbatim>\<open>id\<close> is named \<open>task_id\<close> here, since \<open>id\<close> is
  the identity function of HOL. Optional fields are options.
\<close>

record Task =
  task_id :: int
  description :: string
  completed :: bool
  priority :: int
  category :: string
  created_at :: string
  updated_at :: "string option"
  remind_at :: "string option"
  recurring :: bool

text \<open>
  The \<^verbatim>\<open>WebSocketMessage\<close> interface: \<^verbatim>\<open>{type: string, data?: any, tasks?: Task[]}\<close>.
  The handler only tests \<^verbatim>\<open>data\<close> for truthiness and reads it as a task record, so an
  absent (or falsy) \<^verbatim>\<open>data\<close> is \<open>None\<close> and a task record is \<open>Some\<close>. An array is
  truthy in JavaScript also when it is empty, so \<open>Some []\<close> is a present \<^verbatim>\<open>tasks\<close> field.
\<close>

record WebSocketMessage =
  msg_type :: string
  msg_data :: "Task option"
  msg_tasks :: "Task list option"

section \<open>The useWebSocket hook (hooks/useWebSocket.ts)\<close>

datatype js_error = SyntaxError | InvalidCharacterError | AxiosError

datatype ready_state = CONNECTING | OPEN | CLOSING | CLOSED

text \<open>
  The state the hook owns: the two \<^verbatim>\<open>useState\<close> cells, the refs, and the effects it has on
  the outside world, each as a log: the \<^verbatim>\<open>type\<close> of every message given to \<^verbatim>\<open>ws.send\<close>,
  the delay of every \<^verbatim>\<open>setTimeout\<close> that schedules a reconnect, and the console lines.
\<close>

record ws_state =
  isConnected :: bool
  tasks :: "Task list"
  wsRef :: "ready_state option"
  reconnectAttempts :: nat
  sent :: "string list"
  timers :: "nat list"
  console :: "string list"

definition maxReconnectAttempts :: nat where
  "maxReconnectAttempts = 5"

definition initial_state :: ws_state where
  "initial_state = \<lparr>isConnected = False, tasks = [], wsRef = None, reconnectAttempts = 0,
     sent = [], timers = [], console = []\<rparr>"

text \<open>
  The updater given to \<^verbatim>\<open>setTasks\<close> in the case \<^verbatim>\<open>'task_update'\<close>:
  \<^verbatim>\<open>prev.map(task => task.id === data.id ? data : task)\<close>, then a \<^verbatim>\<open>push\<close> when
  \<^verbatim>\<open>prev.find\<close> finds no task with that id.
\<close>

definition task_update_merge :: "Task \<Rightarrow> Task list \<Rightarrow> Task list" where
  "task_update_merge d prev =
     (let updated = map (\<lambda>task. if task_id task = task_id d then d else task) prev
      in if find (\<lambda>task. task_id task = task_id d) prev = None then updated @ [d] else updated)"

text \<open>
  The body of the \<^verbatim>\<open>try\<close> block of \<^verbatim>\<open>ws.onmessage\<close>. Its input is the outcome of
  \<^verbatim>\<open>JSON.parse(event.data)\<close>: \<open>Inl SyntaxError\<close> when the parser throws, the message
  otherwise. The \<^verbatim>\<open>switch\<close> keeps the order of the source.
\<close>

definition onmessage_try :: "js_error + WebSocketMessage \<Rightarrow> ws_state \<Rightarrow> js_error + ws_state" where
  "onmessage_try parsed s =
     (case parsed of
        Inl e \<Rightarrow> Inl e
      | Inr message \<Rightarrow>
          if msg_type message = ''pong'' then Inr s
          else if msg_type message = ''tasks_update'' then
            (case msg_tasks message of
               Some ts \<Rightarrow> Inr (s\<lparr>tasks := ts\<rparr>)
             | None \<Rightarrow> Inr s)
          else if msg_type message = ''task_update'' then
            (case msg_data message of
               Some d \<Rightarrow> Inr (s\<lparr>tasks := task_update_merge d (tasks s)\<rparr>)
             | None \<Rightarrow> Inr s)
          else Inr (s\<lparr>console := console s @ [''Unknown message type: '' @ msg_type message]\<rparr>))"

text \<open>
  \<^verbatim>\<open>ws.onmessage\<close> with its \<^verbatim>\<open>catch\<close>: an error of the body is logged and the state is
  left as it was. The result is a sum so that an error leaving the handler would be
  visible as \<open>Inl\<close>.
\<close>

definition onmessage :: "js_error + WebSocketMessage \<Rightarrow> ws_state \<Rightarrow> js_error + ws_state" where
  "onmessage parsed s =
     (case onmessage_try parsed s of
        Inl e \<Rightarrow> Inr (s\<lparr>console := console s @ [''Error parsing WebSocket message:'']\<rparr>)
      | Inr s' \<Rightarrow> Inr s')"


text \<open>Decimal digits of a number, for the template string of the reconnect log line.\<close>

fun show_nat :: "nat \<Rightarrow> string" where
  "show_nat n = (if n < 10 then [char_of (48 + n)] else show_nat (n div 10) @ [char_of (48 + n mod 10)])"

text \<open>
  \<^verbatim>\<open>ws.onopen\<close>: mark the hook connected, reset \<^verbatim>\<open>reconnectAttempts.current\<close> and send
  \<^verbatim>\<open>{type: 'ping'}\<close>.
\<close>

definition onopen :: "ws_state \<Rightarrow> ws_state" where
  "onopen s = s\<lparr>console := console s @ [''WebSocket connected''],
                isConnected := True,
                reconnectAttempts := 0,
                sent := sent s @ [''ping'']\<rparr>"

text \<open>
  The delay of the reconnect timer, \<^verbatim>\<open>Math.min(1000 * Math.pow(2, attempts), 30000)\<close>, in
  milliseconds. On the natural numbers the doubles of the source are exact: beyond the
  exactly representable products the minimum is 30000 anyway.
\<close>

definition reconnect_delay :: "nat \<Rightarrow> nat" where
  "reconnect_delay attempts = min (1000 * 2 ^ attempts) 30000"

text \<open>
  \<^verbatim>\<open>ws.onclose\<close>: the counter is incremented first and the delay is computed from the
  incremented value.
\<close>

definition onclose :: "ws_state \<Rightarrow> ws_state" where
  "onclose s =
     (let s1 = s\<lparr>console := console s @ [''WebSocket disconnected''],
                 isConnected := False,
                 wsRef := None\<rparr>
      in if reconnectAttempts s1 < maxReconnectAttempts then
           (let s2 = s1\<lparr>reconnectAttempts := reconnectAttempts s1 + 1\<rparr>;
                delay = reconnect_delay (reconnectAttempts s2)
            in s2\<lparr>timers := timers s2 @ [delay]\<rparr>)
         else s1)"

text \<open>
  \<^verbatim>\<open>connect\<close>: \<open>throws\<close> says whether \<^verbatim>\<open>new WebSocket(WS_URL)\<close> threw; then the
  \<^verbatim>\<open>catch\<close> only logs, and no handler is installed.
\<close>

definition connect :: "bool \<Rightarrow> ws_state \<Rightarrow> ws_state" where
  "connect throws s =
     (if throws then s\<lparr>console := console s @ [''Error creating WebSocket connection:'']\<rparr>
      else s\<lparr>wsRef := Some CONNECTING\<rparr>)"

text \<open>The callback of the reconnect timer: a log line, then \<^verbatim>\<open>connect()\<close>.\<close>

definition reconnect_timer :: "bool \<Rightarrow> ws_state \<Rightarrow> ws_state" where
  "reconnect_timer throws s =
     connect throws
       (s\<lparr>console := console s @
          [''Attempting to reconnect ('' @ show_nat (reconnectAttempts s) @ ''/'' @
           show_nat maxReconnectAttempts @ '')...'']\<rparr>)"

text \<open>
  \<^verbatim>\<open>sendMessage\<close> sends only on an open socket; a message is represented by its
  \<^verbatim>\<open>type\<close>. \<^verbatim>\<open>requestTasks\<close> is the only helper of the hook that asks the server for
  the task list.
\<close>

definition sendMessage :: "string \<Rightarrow> ws_state \<Rightarrow> ws_state" where
  "sendMessage message s =
     (if wsRef s = Some OPEN then s\<lparr>sent := sent s @ [message]\<rparr> else s)"

definition requestTasks :: "ws_state \<Rightarrow> ws_state" where
  "requestTasks s = sendMessage ''get_tasks'' s"

text \<open>
  The events the browser delivers to the hook. On \<open>OpenEv\<close> the socket is in state
  \<^verbatim>\<open>OPEN\<close> when the handler runs.
\<close>

datatype event =
    OpenEv
  | MessageEv "js_error + WebSocketMessage"
  | CloseEv
  | TimerEv bool

definition handle :: "event \<Rightarrow> ws_state \<Rightarrow> ws_state" where
  "handle ev s =
     (case ev of
        OpenEv \<Rightarrow> onopen (s\<lparr>wsRef := Some OPEN\<rparr>)
      | MessageEv parsed \<Rightarrow> (case onmessage parsed s of Inr s' \<Rightarrow> s' | Inl e \<Rightarrow> s)
      | CloseEv \<Rightarrow> onclose s
      | TimerEv throws \<Rightarrow> reconnect_timer throws s)"

definition run :: "event list \<Rightarrow> ws_state \<Rightarrow> ws_state" where
  "run evs s = foldl (\<lambda>st ev. handle ev st) s evs"

section \<open>The task list the application shows (App.tsx)\<close>

text \<open>
  \<^verbatim>\<open>AppContent\<close> renders the data of the query \<^verbatim>\<open>['tasks']\<close>, with the default
  \<^verbatim>\<open>[]\<close> while the query has no data. The effect on \<^verbatim>\<open>wsTasks\<close> copies the hook's list
  into the query cache, guarded by \<^verbatim>\<open>wsTasks.length > 0\<close>; \<open>now\<close> is
  \<^verbatim>\<open>new Date().toISOString()\<close>.
\<close>

record app_state =
  queryData :: "Task list option"
  lastUpdate :: string

definition displayed_tasks :: "app_state \<Rightarrow> Task list" where
  "displayed_tasks a = (case queryData a of None \<Rightarrow> [] | Some ts \<Rightarrow> ts)"

definition wsTasks_effect :: "Task list \<Rightarrow> string \<Rightarrow> app_state \<Rightarrow> app_state" where
  "wsTasks_effect wsTasks now a =
     (if length wsTasks > 0 then a\<lparr>queryData := Some wsTasks, lastUpdate := now\<rparr> else a)"

section \<open>Action kinds (frontend/src/types/index.ts)\<close>










section \<open>The audio encoding helpers (utils/api.ts)\<close>

text \<open>
  A \<^verbatim>\<open>Blob\<close>: its bytes and its MIME type. The helpers call three functions of the
  browser, modelled here from their standards: \<^verbatim>\<open>FileReader.readAsDataURL\<close> (a data URL
  \<^verbatim>\<open>data:<type>;base64,<data>\<close> with the base64 encoding of RFC 4648, padded),
  \<^verbatim>\<open>String.prototype.split\<close> and \<^verbatim>\<open>atob\<close> (the forgiving base64 decoding of the
  WHATWG Infra standard). A base64 string and the binary string of \<^verbatim>\<open>atob\<close> are
  \<open>string\<close>s: every code unit of either is below 256.
\<close>

record Blob =
  blob_bytes :: "8 word list"
  blob_type :: string

definition b64_alphabet :: string where
  "b64_alphabet = ''ABCDEFGHIJKLMNOPQRSTUVWXYZabcdefghijklmnopqrstuvwxyz0123456789+/''"

definition b64_char :: "nat \<Rightarrow> char" where
  "b64_char n = b64_alphabet ! n"

fun b64_encode :: "8 word list \<Rightarrow> string" where
  "b64_encode [] = []"
| "b64_encode [a] =
     (let x = unat a
      in [b64_char (x div 4), b64_char ((x mod 4) * 16), CHR ''='', CHR ''=''])"
| "b64_encode [a, b] =
     (let x = unat a; y = unat b
      in [b64_char (x div 4), b64_char ((x mod 4) * 16 + y div 16),
          b64_char ((y mod 16) * 4), CHR ''=''])"
| "b64_encode (a # b # c # rest) =
     (let x = unat a; y = unat b; z = unat c
      in [b64_char (x div 4), b64_char ((x mod 4) * 16 + y div 16),
          b64_char ((y mod 16) * 4 + z div 64), b64_char (z mod 64)]) @ b64_encode rest"

definition readAsDataURL :: "Blob \<Rightarrow> string" where
  "readAsDataURL blob = ''data:'' @ blob_type blob @ '';base64,'' @ b64_encode (blob_bytes blob)"

text \<open>\<^verbatim>\<open>str.split(sep)\<close> for a separator of one character: never an empty array.\<close>

fun split :: "char \<Rightarrow> string \<Rightarrow> string list" where
  "split sep [] = [[]]"
| "split sep (x # xs) =
     (if x = sep then [] # split sep xs
      else (case split sep xs of
              [] \<Rightarrow> [[x]]
            | part # parts \<Rightarrow> (x # part) # parts))"

text \<open>
  \<^verbatim>\<open>blobToBase64\<close>: the promise resolves with \<^verbatim>\<open>result.split(',')[1]\<close>, which is
  \<^verbatim>\<open>undefined\<close> (here \<open>None\<close>) when the array has one element. A failing read
  (\<^verbatim>\<open>reader.onerror\<close>) is not modelled: the blob is in memory.
\<close>

definition blobToBase64 :: "Blob \<Rightarrow> string option" where
  "blobToBase64 blob =
     (let result = readAsDataURL blob;
          parts = split CHR '','' result
      in if 1 < length parts then Some (parts ! 1) else None)"

definition ascii_whitespace :: "char \<Rightarrow> bool" where
  "ascii_whitespace c = (of_char c \<in> {9, 10, 12, 13, 32 :: nat})"

fun index_of :: "'a \<Rightarrow> 'a list \<Rightarrow> nat option" where
  "index_of x [] = None"
| "index_of x (y # ys) = (if x = y then Some 0 else map_option Suc (index_of x ys))"

definition b64_index :: "char \<Rightarrow> nat option" where
  "b64_index c = index_of c b64_alphabet"

text \<open>Remove one or two \<^verbatim>\<open>=\<close> at the end.\<close>

definition strip_padding :: "string \<Rightarrow> string" where
  "strip_padding d =
     (if d \<noteq> [] \<and> last d = CHR ''='' then
        (let d1 = butlast d
         in if d1 \<noteq> [] \<and> last d1 = CHR ''='' then butlast d1 else d1)
      else d)"

text \<open>
  The bit buffer of the decoder: four sextets give three bytes; three sextets at the end
  give two bytes and two sextets give one, the surplus bits being discarded.
\<close>

fun decode_sextets :: "nat list \<Rightarrow> string" where
  "decode_sextets (p # q # r # t # rest) =
     (let n = ((p * 64 + q) * 64 + r) * 64 + t
      in [char_of (n div 65536), char_of (n div 256), char_of n]) @ decode_sextets rest"
| "decode_sextets [p, q, r] =
     (let n = ((p * 64 + q) * 64 + r) div 4
      in [char_of (n div 256), char_of n])"
| "decode_sextets [p, q] =
     (let n = (p * 64 + q) div 16
      in [char_of n])"
| "decode_sextets [p] = []"
| "decode_sextets [] = []"

definition atob :: "string \<Rightarrow> js_error + string" where
  "atob data =
     (let d0 = filter (\<lambda>c. \<not> ascii_whitespace c) data;
          d = (if length d0 mod 4 = 0 then strip_padding d0 else d0)
      in if length d mod 4 = 1 then Inl InvalidCharacterError
         else (case those (map b64_index d) of
                 None \<Rightarrow> Inl InvalidCharacterError
               | Some sextets \<Rightarrow> Inr (decode_sextets sextets)))"

text \<open>
  \<^verbatim>\<open>base64ToBlob\<close>: the loop fills \<^verbatim>\<open>byteNumbers\<close> with \<^verbatim>\<open>charCodeAt(i)\<close>, and
  \<^verbatim>\<open>new Uint8Array\<close> stores each number modulo 256. An exception of \<^verbatim>\<open>atob\<close> leaves
  the function.
\<close>

definition base64ToBlob :: "string \<Rightarrow> string \<Rightarrow> js_error + Blob" where
  "base64ToBlob base64 mimeType =
     (case atob base64 of
        Inl e \<Rightarrow> Inl e
      | Inr byteCharacters \<Rightarrow>
          (let byteNumbers = map (\<lambda>c. of_char c :: nat) byteCharacters;
               byteArray = map (\<lambda>n. of_nat n :: 8 word) byteNumbers
           in Inr \<lparr>blob_bytes = byteArray, blob_type = mimeType\<rparr>))"

section \<open>Example values\<close>

definition example_task :: "int \<Rightarrow> string \<Rightarrow> Task" where
  "example_task i d = \<lparr>task_id = i, description = d, completed = False, priority = 3,
     category = ''general'', created_at = ''2024-01-01T00:00:00'', updated_at = None,
     remind_at = None, recurring = False\<rparr>"

definition example_view :: ws_state where
  "example_view = initial_state\<lparr>tasks :=
     [example_task 1 ''buy milk'', example_task 2 ''call mum'', example_task 3 ''pay rent'']\<rparr>"

definition example_upsert :: WebSocketMessage where
  "example_upsert = \<lparr>msg_type = ''task_update'',
     msg_data = Some (example_task 2 ''call dad''), msg_tasks = None\<rparr>"

definition example_snapshot :: WebSocketMessage where
  "example_snapshot = \<lparr>msg_type = ''tasks_update'', msg_data = None,
     msg_tasks = Some [example_task 7 ''water plants'']\<rparr>"

definition empty_snapshot :: WebSocketMessage where
  "empty_snapshot = \<lparr>msg_type = ''tasks_update'', msg_data = None, msg_tasks = Some []\<rparr>"

definition audio_blob :: Blob where
  "audio_blob = \<lparr>blob_bytes = [0x4d, 0x61, 0x6e, 0x21], blob_type = ''audio/webm;codecs=opus''\<rparr>"

definition comma_blob :: Blob where
  "comma_blob = \<lparr>blob_bytes = [0x78], blob_type = ''video/webm;codecs=vp8,opus''\<rparr>"



definition example_app :: app_state where
  "example_app = \<lparr>queryData = Some [example_task 1 ''buy milk''], lastUpdate = ''''\<rparr>"

section \<open>The merge of a single-task upsert\<close>

lemma find_None_map_id:
  "find (\<lambda>task. task_id task = k) prev = None \<Longrightarrow>
   map (\<lambda>task. if task_id task = k then d else task) prev = prev"
  by (induction prev) (auto split: if_splits)

lemma find_None_iff_no_id:
  "(find (\<lambda>task. task_id task = k) prev = None) = (k \<notin> task_id ` set prev)"
  by (induction prev) auto

lemma task_update_merge_present:
  "task_id d \<in> task_id ` set prev \<Longrightarrow>
   task_update_merge d prev = map (\<lambda>task. if task_id task = task_id d then d else task) prev"
  by (simp add: task_update_merge_def find_None_iff_no_id)

lemma task_update_merge_absent:
  "task_id d \<notin> task_id ` set prev \<Longrightarrow> task_update_merge d prev = prev @ [d]"
  by (simp add: task_update_merge_def find_None_iff_no_id find_None_map_id)

lemma onmessage_task_update:
  "msg_type m = ''task_update'' \<Longrightarrow> msg_data m = Some d \<Longrightarrow>
   onmessage (Inr m) s = Inr (s\<lparr>tasks := task_update_merge d (tasks s)\<rparr>)"
  by (simp add: onmessage_def onmessage_try_def)

lemma onmessage_tasks_update:
  "msg_type m = ''tasks_update'' \<Longrightarrow> msg_tasks m = Some ts \<Longrightarrow>
   onmessage (Inr m) s = Inr (s\<lparr>tasks := ts\<rparr>)"
  by (simp add: onmessage_def onmessage_try_def)

lemma task_update_merge_nth:
  assumes "task_id d \<in> task_id ` set prev" and "i < length prev"
  shows "task_update_merge d prev ! i = (if task_id (prev ! i) = task_id d then d else prev ! i)"
  using assms by (simp add: task_update_merge_present)

lemma task_update_merge_length:
  "length (task_update_merge d prev) =
     (if task_id d \<in> task_id ` set prev then length prev else length prev + 1)"
  by (simp add: task_update_merge_present task_update_merge_absent)

lemma map_task_id_replace:
  "map task_id (map (\<lambda>task. if task_id task = task_id d then d else task) prev) = map task_id prev"
  by (induction prev) auto

lemma task_update_merge_distinct:
  assumes "distinct (map task_id prev)"
  shows "distinct (map task_id (task_update_merge d prev))"
proof (cases "task_id d \<in> task_id ` set prev")
  case True
  then show ?thesis
    using assms by (simp only: task_update_merge_present map_task_id_replace)
next
  case False
  then show ?thesis
    using assms by (simp add: task_update_merge_absent)
qed

text \<open>
  Claim C1. When the hook receives a \<^verbatim>\<open>task_update\<close> message that carries a task record,
  the new view keeps its length and holds the event's task at every position whose task
  had the event's identifier, every other position being as before, if the identifier
  was in the view; otherwise the new view is the old one with the event's task appended.
  Nothing else of the hook's state changes.
\<close>

theorem task_update_upsert:
  assumes "msg_type m = ''task_update''" and "msg_data m = Some d"
  shows "\<exists>new. onmessage (Inr m) s = Inr (s\<lparr>tasks := new\<rparr>) \<and>
           (if task_id d \<in> task_id ` set (tasks s)
            then length new = length (tasks s) \<and>
                 (\<forall>i<length (tasks s).
                    new ! i = (if task_id (tasks s ! i) = task_id d then d else tasks s ! i))
            else new = tasks s @ [d])"
proof -
  let ?new = "task_update_merge d (tasks s)"
  have "onmessage (Inr m) s = Inr (s\<lparr>tasks := ?new\<rparr>)"
    using assms by (rule onmessage_task_update)
  moreover have "task_id d \<in> task_id ` set (tasks s) \<Longrightarrow> length ?new = length (tasks s)"
    by (simp add: task_update_merge_length)
  moreover have "task_id d \<in> task_id ` set (tasks s) \<Longrightarrow> i < length (tasks s) \<Longrightarrow>
      ?new ! i = (if task_id (tasks s ! i) = task_id d then d else tasks s ! i)" for i
    by (rule task_update_merge_nth)
  moreover have "task_id d \<notin> task_id ` set (tasks s) \<Longrightarrow> ?new = tasks s @ [d]"
    by (rule task_update_merge_absent)
  ultimately show ?thesis by auto
qed

theorem task_update_upsert_witness:
  "msg_type example_upsert = ''task_update'' \<and>
   msg_data example_upsert = Some (example_task 2 ''call dad'') \<and>
   onmessage (Inr example_upsert) example_view =
     Inr (example_view\<lparr>tasks :=
       [example_task 1 ''buy milk'', example_task 2 ''call dad'', example_task 3 ''pay rent'']\<rparr>)"
proof -
  have h1: "msg_type example_upsert = ''task_update''"
    by (simp add: example_upsert_def)
  have h2: "msg_data example_upsert = Some (example_task 2 ''call dad'')"
    by (simp add: example_upsert_def)
  obtain new where n: "onmessage (Inr example_upsert) example_view = Inr (example_view\<lparr>tasks := new\<rparr>)"
    and len: "length new = 3"
    and nth: "\<forall>i<3. new ! i =
       (if task_id (tasks example_view ! i) = 2 then example_task 2 ''call dad''
        else tasks example_view ! i)"
    using task_update_upsert [OF h1 h2, of example_view]
    by (auto simp: example_view_def example_task_def)
  have "new ! 0 = example_task 1 ''buy milk''" "new ! Suc 0 = example_task 2 ''call dad''"
    "new ! Suc (Suc 0) = example_task 3 ''pay rent''"
    using nth by (simp_all add: example_view_def example_task_def)
  with len have "new = [example_task 1 ''buy milk'', example_task 2 ''call dad'',
      example_task 3 ''pay rent'']"
    by (simp add: list_eq_iff_nth_eq less_Suc_eq numeral_3_eq_3 nth_Cons')
  with n h1 h2 show ?thesis by simp
qed

text \<open>
  Claim C8. Merging a single-task upsert into a view whose identifiers are pairwise
  distinct gives a view whose identifiers are pairwise distinct; its length is the old
  length when the event's identifier was in the view, and one more when it was not.
\<close>

theorem task_update_keeps_structure:
  assumes "distinct (map task_id (tasks s))"
    and "msg_type m = ''task_update''" and "msg_data m = Some d"
  shows "\<exists>s'. onmessage (Inr m) s = Inr s' \<and>
           distinct (map task_id (tasks s')) \<and>
           length (tasks s') =
             (if task_id d \<in> task_id ` set (tasks s) then length (tasks s)
              else length (tasks s) + 1)"
  using assms
  by (simp add: onmessage_task_update task_update_merge_distinct task_update_merge_length)

theorem task_update_keeps_structure_witness:
  "distinct (map task_id (tasks example_view)) \<and>
   msg_type example_upsert = ''task_update'' \<and>
   msg_data example_upsert = Some (example_task 2 ''call dad'') \<and>
   (\<exists>s'. onmessage (Inr example_upsert) example_view = Inr s' \<and>
      distinct (map task_id (tasks s')) \<and> length (tasks s') = 3)"
proof -
  have h0: "distinct (map task_id (tasks example_view))"
    by (simp add: example_view_def example_task_def)
  have h1: "msg_type example_upsert = ''task_update''"
    by (simp add: example_upsert_def)
  have h2: "msg_data example_upsert = Some (example_task 2 ''call dad'')"
    by (simp add: example_upsert_def)
  have v: "task_id (example_task 2 ''call dad'') \<in> task_id ` set (tasks example_view)"
    by (simp add: example_view_def example_task_def)
  have len: "length (tasks example_view) = 3"
    by (simp add: example_view_def)
  have "\<exists>s'. onmessage (Inr example_upsert) example_view = Inr s' \<and>
      distinct (map task_id (tasks s')) \<and>
      length (tasks s') =
        (if task_id (example_task 2 ''call dad'') \<in> task_id ` set (tasks example_view)
         then length (tasks example_view) else length (tasks example_view) + 1)"
    by (rule task_update_keeps_structure [OF h0 h1 h2])
  then have "\<exists>s'. onmessage (Inr example_upsert) example_view = Inr s' \<and>
      distinct (map task_id (tasks s')) \<and> length (tasks s') = 3"
    by (simp only: v if_True len)
  with h0 h1 h2 show ?thesis by blast
qed

text \<open>
  Claim C2, as amended. A \<^verbatim>\<open>tasks_update\<close> message that carries a list makes the hook's
  list equal to the carried list, whatever it was before and also when the carried list
  is empty. The list the application shows, once the effect on \<^verbatim>\<open>wsTasks\<close> has run on
  the hook's new list, is the carried list when that is not empty, and is left as it was
  when the carried list is empty.
\<close>

theorem snapshot_replaces_view:
  assumes "msg_type m = ''tasks_update''" and "msg_tasks m = Some ts"
  shows "\<exists>s'. onmessage (Inr m) s = Inr s' \<and> tasks s' = ts \<and>
           displayed_tasks (wsTasks_effect (tasks s') now a) =
             (if ts = [] then displayed_tasks a else ts)"
  using assms
  by (simp add: onmessage_tasks_update wsTasks_effect_def displayed_tasks_def)

theorem snapshot_replaces_view_witness:
  "msg_type example_snapshot = ''tasks_update'' \<and>
   msg_tasks example_snapshot = Some [example_task 7 ''water plants''] \<and>
   (\<exists>s'. onmessage (Inr example_snapshot) example_view = Inr s' \<and>
      tasks s' = [example_task 7 ''water plants''] \<and>
      displayed_tasks (wsTasks_effect (tasks s') ''2024-01-02T00:00:00'' example_app) =
        [example_task 7 ''water plants''])"
proof -
  have h1: "msg_type example_snapshot = ''tasks_update''"
    by (simp add: example_snapshot_def)
  have h2: "msg_tasks example_snapshot = Some [example_task 7 ''water plants'']"
    by (simp add: example_snapshot_def)
  show ?thesis
    using h1 h2
      snapshot_replaces_view [OF h1 h2, of example_view "''2024-01-02T00:00:00''" example_app]
    by simp
qed

text \<open>
  The claim as stated fails for the list the application shows: after an empty snapshot
  it still shows the task it showed before.
\<close>

theorem empty_snapshot_counterexample:
  "msg_tasks empty_snapshot = Some [] \<and>
   displayed_tasks
     (wsTasks_effect (tasks (handle (MessageEv (Inr empty_snapshot)) example_view))
        ''2024-01-02T00:00:00'' example_app) = [example_task 1 ''buy milk''] \<and>
   [example_task 1 ''buy milk''] \<noteq> []"
  by (simp add: empty_snapshot_def handle_def onmessage_def onmessage_try_def
      wsTasks_effect_def displayed_tasks_def example_app_def)

lemma onmessage_parse_error:
  "onmessage (Inl e) s = Inr (s\<lparr>console := console s @ [''Error parsing WebSocket message:'']\<rparr>)"
  by (simp add: onmessage_def onmessage_try_def)

lemma onmessage_unknown_type:
  "msg_type m \<notin> {''pong'', ''tasks_update'', ''task_update''} \<Longrightarrow>
   onmessage (Inr m) s = Inr (s\<lparr>console := console s @ [''Unknown message type: '' @ msg_type m]\<rparr>)"
  by (simp add: onmessage_def onmessage_try_def)

lemma onmessage_no_tasks:
  "msg_type m = ''tasks_update'' \<Longrightarrow> msg_tasks m = None \<Longrightarrow>
   onmessage (Inr m) s = Inr (s\<lparr>console := console s @ []\<rparr>)"
  by (simp add: onmessage_def onmessage_try_def)

lemma onmessage_no_data:
  "msg_type m = ''task_update'' \<Longrightarrow> msg_data m = None \<Longrightarrow>
   onmessage (Inr m) s = Inr (s\<lparr>console := console s @ []\<rparr>)"
  by (simp add: onmessage_def onmessage_try_def)

text \<open>
  Claim C9. A message whose JSON does not parse, a message of an unrecognised type, a
  \<^verbatim>\<open>tasks_update\<close> without \<^verbatim>\<open>tasks\<close> and a \<^verbatim>\<open>task_update\<close> without \<^verbatim>\<open>data\<close> all leave the
  handler normally (no error escapes it), and the state afterwards differs from the
  state before at most by lines added to the console: the task view is unchanged.
\<close>

theorem malformed_message_ignored:
  assumes "parsed = Inl e \<or>
           (\<exists>m. parsed = Inr m \<and>
              (msg_type m \<notin> {''pong'', ''tasks_update'', ''task_update''} \<or>
               msg_type m = ''tasks_update'' \<and> msg_tasks m = None \<or>
               msg_type m = ''task_update'' \<and> msg_data m = None))"
  shows "\<exists>lines. onmessage parsed s = Inr (s\<lparr>console := console s @ lines\<rparr>) \<and>
           tasks (s\<lparr>console := console s @ lines\<rparr>) = tasks s"
proof -
  have "\<exists>lines. onmessage parsed s = Inr (s\<lparr>console := console s @ lines\<rparr>)"
    using assms onmessage_parse_error onmessage_unknown_type onmessage_no_tasks
      onmessage_no_data
    by blast
  then show ?thesis by simp
qed

theorem malformed_message_ignored_witness:
  "(Inl SyntaxError :: js_error + WebSocketMessage) = Inl SyntaxError \<and>
   (\<exists>lines. onmessage (Inl SyntaxError) example_view =
        Inr (example_view\<lparr>console := console example_view @ lines\<rparr>) \<and>
      tasks (example_view\<lparr>console := console example_view @ lines\<rparr>) = tasks example_view)"
proof -
  have h: "(Inl SyntaxError :: js_error + WebSocketMessage) = Inl SyntaxError \<or>
           (\<exists>m. (Inl SyntaxError :: js_error + WebSocketMessage) = Inr m \<and>
              (msg_type m \<notin> {''pong'', ''tasks_update'', ''task_update''} \<or>
               msg_type m = ''tasks_update'' \<and> msg_tasks m = None \<or>
               msg_type m = ''task_update'' \<and> msg_data m = None))"
    by simp
  show ?thesis
    using malformed_message_ignored [OF h, of example_view] by simp
qed

section \<open>Reconnection\<close>

lemma run_Nil: "run [] s = s"
  by (simp add: run_def)

lemma run_Cons: "run (ev # evs) s = run evs (handle ev s)"
  by (simp add: run_def)

lemma onmessage_keeps_reconnect:
  "onmessage parsed s = Inr s' \<Longrightarrow>
   timers s' = timers s \<and> reconnectAttempts s' = reconnectAttempts s \<and> sent s' = sent s"
  by (auto simp: onmessage_def onmessage_try_def split: sum.splits option.splits if_splits)

lemma handle_MessageEv_keeps:
  "timers (handle (MessageEv p) s) = timers s \<and>
   reconnectAttempts (handle (MessageEv p) s) = reconnectAttempts s"
  by (cases "onmessage p s") (auto simp: handle_def dest: onmessage_keeps_reconnect)

lemma handle_TimerEv_keeps:
  "timers (handle (TimerEv b) s) = timers s \<and>
   reconnectAttempts (handle (TimerEv b) s) = reconnectAttempts s"
  by (simp add: handle_def reconnect_timer_def connect_def)

lemma handle_CloseEv_below:
  "reconnectAttempts s < maxReconnectAttempts \<Longrightarrow>
   timers (handle CloseEv s) = timers s @ [reconnect_delay (Suc (reconnectAttempts s))] \<and>
   reconnectAttempts (handle CloseEv s) = Suc (reconnectAttempts s)"
  by (simp add: handle_def onclose_def Let_def)

lemma handle_CloseEv_exhausted:
  "\<not> reconnectAttempts s < maxReconnectAttempts \<Longrightarrow>
   timers (handle CloseEv s) = timers s \<and>
   reconnectAttempts (handle CloseEv s) = reconnectAttempts s"
  by (simp add: handle_def onclose_def Let_def)

lemma handle_OpenEv:
  "handle OpenEv s = s\<lparr>wsRef := Some OPEN, console := console s @ [''WebSocket connected''],
     isConnected := True, reconnectAttempts := 0, sent := sent s @ [''ping'']\<rparr>"
  by (simp add: handle_def onopen_def)

text \<open>What a run without a successful open schedules, from any counter value.\<close>

lemma run_no_open:
  assumes "OpenEv \<notin> set evs"
  shows "timers (run evs s) =
           timers s @ map reconnect_delay
             [Suc (reconnectAttempts s) ..<
              Suc (min (reconnectAttempts s + count_list evs CloseEv) maxReconnectAttempts)] \<and>
         reconnectAttempts (run evs s) =
           max (reconnectAttempts s)
             (min (reconnectAttempts s + count_list evs CloseEv) maxReconnectAttempts)"
  using assms
proof (induction evs arbitrary: s)
  case Nil
  then show ?case by (simp add: run_Nil)
next
  case (Cons ev evs)
  then have IH: "timers (run evs (handle ev s)) =
           timers (handle ev s) @ map reconnect_delay
             [Suc (reconnectAttempts (handle ev s)) ..<
              Suc (min (reconnectAttempts (handle ev s) + count_list evs CloseEv) maxReconnectAttempts)] \<and>
         reconnectAttempts (run evs (handle ev s)) =
           max (reconnectAttempts (handle ev s))
             (min (reconnectAttempts (handle ev s) + count_list evs CloseEv) maxReconnectAttempts)"
    by simp
  show ?case
  proof (cases ev)
    case OpenEv
    with Cons.prems show ?thesis by simp
  next
    case (MessageEv p)
    with IH show ?thesis by (simp add: run_Cons handle_MessageEv_keeps)
  next
    case (TimerEv b)
    with IH show ?thesis by (simp add: run_Cons handle_TimerEv_keeps)
  next
    case CloseEv
    let ?a = "reconnectAttempts s"
    let ?c = "count_list evs CloseEv"
    let ?M = "maxReconnectAttempts"
    have cnt: "count_list (ev # evs) CloseEv = Suc ?c"
      using CloseEv by simp
    show ?thesis
    proof (cases "?a < ?M")
      case True
      let ?top = "min (Suc ?a + ?c) ?M"
      have le: "Suc ?a \<le> ?top"
        using True by simp
      have upt: "[Suc ?a ..< Suc ?top] = Suc ?a # [Suc (Suc ?a) ..< Suc ?top]"
        by (rule upt_conv_Cons) (rule le_imp_less_Suc [OF le])
      have h: "timers (handle ev s) = timers s @ [reconnect_delay (Suc ?a)]"
        "reconnectAttempts (handle ev s) = Suc ?a"
        using True CloseEv by (simp_all add: handle_CloseEv_below)
      have t: "timers (run (ev # evs) s) = timers s @ map reconnect_delay [Suc ?a ..< Suc ?top]"
        using IH by (simp only: run_Cons h upt) simp
      have "reconnectAttempts (run (ev # evs) s) = max (Suc ?a) ?top"
        using IH by (simp only: run_Cons h)
      then have r: "reconnectAttempts (run (ev # evs) s) = max ?a ?top"
        using le by simp
      have top: "min (?a + count_list (ev # evs) CloseEv) ?M = ?top"
        by (simp only: cnt add_Suc_right add_Suc)
      show ?thesis
        by (simp only: top t r)
    next
      case False
      have h: "timers (handle ev s) = timers s" "reconnectAttempts (handle ev s) = ?a"
        using False CloseEv by (simp_all add: handle_CloseEv_exhausted)
      have e1: "min (?a + ?c) ?M = ?M" "min (?a + count_list (ev # evs) CloseEv) ?M = ?M"
        using False by simp_all
      have e2: "[Suc ?a ..< Suc ?M] = []"
        using False by simp
      have e3: "max ?a ?M = ?a"
        using False by simp
      show ?thesis
        using IH by (simp only: run_Cons h e1 e2 e3) 
    qed
  qed
qed

text \<open>
  Claim C3, as amended. After a successful open, in a run of events without another open
  that closes the connection \<open>n\<close> times (\<open>n\<close> at most 5), the reconnect timers scheduled
  are, in order, those with delay \<open>min (1000 * 2 ^ k) 30000\<close> milliseconds for
  \<open>k = 1, ..., n\<close>: 2 seconds before the first attempt, doubling, capped at 30 seconds.
\<close>

theorem reconnect_delay_doubles_from_two_seconds:
  assumes "OpenEv \<notin> set evs" and "count_list evs CloseEv = n" and "n \<le> maxReconnectAttempts"
  shows "timers (run evs (handle OpenEv s)) =
           timers s @ map (\<lambda>k. min (1000 * 2 ^ k) 30000) [1..<Suc n]"
proof -
  have "map reconnect_delay [1..<Suc n] = map (\<lambda>k. min (1000 * 2 ^ k) 30000) [1..<Suc n]"
    by (simp add: reconnect_delay_def)
  then show ?thesis
    using run_no_open [OF assms(1), of "handle OpenEv s"] assms(2,3)
    by (simp add: handle_OpenEv)
qed

theorem reconnect_delay_doubles_from_two_seconds_witness:
  "OpenEv \<notin> set [CloseEv, TimerEv False, CloseEv, TimerEv False, CloseEv, TimerEv False,
      CloseEv, TimerEv False, CloseEv] \<and>
   count_list [CloseEv, TimerEv False, CloseEv, TimerEv False, CloseEv, TimerEv False,
      CloseEv, TimerEv False, CloseEv] CloseEv = 5 \<and>
   5 \<le> maxReconnectAttempts \<and>
   timers (run [CloseEv, TimerEv False, CloseEv, TimerEv False, CloseEv, TimerEv False,
      CloseEv, TimerEv False, CloseEv] (handle OpenEv initial_state)) =
     [2000, 4000, 8000, 16000, 30000]"
proof -
  let ?evs = "[CloseEv, TimerEv False, CloseEv, TimerEv False, CloseEv, TimerEv False,
      CloseEv, TimerEv False, CloseEv]"
  have h1: "OpenEv \<notin> set ?evs" by simp
  have h2: "count_list ?evs CloseEv = 5" by simp
  have h3: "5 \<le> maxReconnectAttempts" by (simp add: maxReconnectAttempts_def)
  have u: "[1..<Suc 5] = [1, 2, 3, 4, 5]" by (simp add: upt_rec)
  have "timers (run ?evs (handle OpenEv initial_state)) =
      timers initial_state @ map (\<lambda>k. min (1000 * 2 ^ k) 30000) [1..<Suc 5]"
    by (rule reconnect_delay_doubles_from_two_seconds [OF h1 h2 h3])
  then have "timers (run ?evs (handle OpenEv initial_state)) = [2000, 4000, 8000, 16000, 30000]"
    by (simp only: u) (simp add: initial_state_def)
  with h1 h2 h3 show ?thesis by blast
qed

text \<open>
  The claim as stated fails at the first attempt: the timer scheduled by the first close
  after an open has a delay of 2000 milliseconds, not \<open>min (1000 * 2 ^ (1 - 1)) 30000\<close>.
\<close>

theorem reconnect_first_delay_counterexample:
  "timers (run [CloseEv] (handle OpenEv initial_state)) = [2000] \<and>
   (2000 :: nat) \<noteq> min (1000 * 2 ^ (1 - 1)) 30000"
  by (simp add: run_def handle_def onopen_def onclose_def initial_state_def
      maxReconnectAttempts_def reconnect_delay_def)

text \<open>
  Claim C4. In a run of events without a successful open, the hook schedules at most 5
  reconnects after the last open; and from a state whose counter has reached 5 such a run
  schedules no reconnect at all and leaves the counter at 5.
\<close>

theorem reconnect_attempts_bounded:
  assumes "OpenEv \<notin> set evs"
  shows "length (timers (run evs (handle OpenEv s))) \<le> length (timers s) + 5 \<and>
         (reconnectAttempts s' = maxReconnectAttempts \<longrightarrow>
            timers (run evs s') = timers s' \<and>
            reconnectAttempts (run evs s') = maxReconnectAttempts)"
proof -
  have "length (timers (run evs (handle OpenEv s))) \<le> length (timers s) + 5"
    using run_no_open [OF assms, of "handle OpenEv s"]
    by (simp add: handle_OpenEv maxReconnectAttempts_def)
  moreover have "reconnectAttempts s' = maxReconnectAttempts \<Longrightarrow>
      timers (run evs s') = timers s' \<and> reconnectAttempts (run evs s') = maxReconnectAttempts"
    using run_no_open [OF assms, of s'] by simp
  ultimately show ?thesis by blast
qed

theorem reconnect_attempts_bounded_witness:
  "OpenEv \<notin> set (replicate 7 CloseEv) \<and>
   length (timers (run (replicate 7 CloseEv) (handle OpenEv initial_state))) \<le> 5 \<and>
   reconnectAttempts (run (replicate 5 CloseEv) (handle OpenEv initial_state)) =
     maxReconnectAttempts \<and>
   timers (run (replicate 7 CloseEv) (run (replicate 5 CloseEv) (handle OpenEv initial_state))) =
     timers (run (replicate 5 CloseEv) (handle OpenEv initial_state))"
proof -
  have h: "OpenEv \<notin> set (replicate 7 CloseEv)" by simp
  have five: "reconnectAttempts (run (replicate 5 CloseEv) (handle OpenEv initial_state)) =
      maxReconnectAttempts"
    by (simp add: numeral_nat run_Cons run_Nil handle_def onopen_def onclose_def
        initial_state_def maxReconnectAttempts_def)
  show ?thesis
    using h five
      reconnect_attempts_bounded [OF h, of initial_state
        "run (replicate 5 CloseEv) (handle OpenEv initial_state)"]
    by (simp add: initial_state_def)
qed

text \<open>
  Claim C5. Every successful open sets the reconnect counter to 0, its initial value,
  whatever it was; and the timers that later closes schedule are those a fresh hook
  schedules after its first open.
\<close>

theorem open_resets_backoff:
  "reconnectAttempts (handle OpenEv s) = 0 \<and>
   reconnectAttempts (handle OpenEv s) = reconnectAttempts initial_state \<and>
   timers (run (replicate n CloseEv) (handle OpenEv s)) =
     timers s @ timers (run (replicate n CloseEv) (handle OpenEv initial_state))"
proof -
  have no: "OpenEv \<notin> set (replicate n CloseEv)" by simp
  show ?thesis
    using run_no_open [OF no, of "handle OpenEv s"]
      run_no_open [OF no, of "handle OpenEv initial_state"]
    by (simp add: handle_OpenEv initial_state_def)
qed

text \<open>
  Claim C6, as amended. On every open the hook sends one message, a \<^verbatim>\<open>ping\<close>, and leaves
  its task list as it was: it requests no resynchronisation. The only helper that asks
  for the list, \<^verbatim>\<open>requestTasks\<close>, sends a message of type \<^verbatim>\<open>get_tasks\<close>, and only on an
  open socket.
\<close>

theorem open_sends_ping_only:
  "sent (handle OpenEv s) = sent s @ [''ping''] \<and>
   tasks (handle OpenEv s) = tasks s \<and>
   sent (requestTasks s) = (if wsRef s = Some OPEN then sent s @ [''get_tasks''] else sent s)"
  by (simp add: handle_OpenEv requestTasks_def sendMessage_def)

text \<open>
  The claim as stated fails: after an open, a close, a reconnect and a second open the
  hook has sent two pings and no \<^verbatim>\<open>request_resync\<close>.
\<close>

theorem reopen_sends_no_resync_counterexample:
  "sent (run [OpenEv, CloseEv, TimerEv False, OpenEv] initial_state) = [''ping'', ''ping''] \<and>
   ''request_resync'' \<notin> set (sent (run [OpenEv, CloseEv, TimerEv False, OpenEv] initial_state))"
  by (simp add: run_def handle_def onopen_def onclose_def initial_state_def
      maxReconnectAttempts_def reconnect_delay_def reconnect_timer_def connect_def)

section \<open>Action kinds\<close>







section \<open>Round trip of the audio encoding helpers\<close>

lemma length_b64_alphabet: "length b64_alphabet = 64"
  by (simp add: b64_alphabet_def)

lemma distinct_b64_alphabet: "distinct b64_alphabet"
  by (simp add: b64_alphabet_def)

lemma b64_alphabet_plain:
  "c \<in> set b64_alphabet \<Longrightarrow> \<not> ascii_whitespace c \<and> c \<noteq> CHR ''='' \<and> c \<noteq> CHR '',''"
  by (auto simp: b64_alphabet_def ascii_whitespace_def)

lemma index_of_nth:
  "distinct xs \<Longrightarrow> n < length xs \<Longrightarrow> index_of (xs ! n) xs = Some n"
proof (induction xs arbitrary: n)
  case Nil
  then show ?case by simp
next
  case (Cons x xs)
  show ?case
  proof (cases n)
    case 0
    then show ?thesis by simp
  next
    case (Suc k)
    with Cons.prems have "k < length xs" "xs ! k \<noteq> x" "distinct xs"
      by auto
    with Cons.IH Suc show ?thesis by auto
  qed
qed

lemma b64_char_in_alphabet: "n < 64 \<Longrightarrow> b64_char n \<in> set b64_alphabet"
  by (simp add: b64_char_def length_b64_alphabet)

lemma b64_index_char: "n < 64 \<Longrightarrow> b64_index (b64_char n) = Some n"
  by (simp add: b64_index_def b64_char_def index_of_nth distinct_b64_alphabet
      length_b64_alphabet)

lemma b64_char_plain:
  "n < 64 \<Longrightarrow> \<not> ascii_whitespace (b64_char n) \<and> b64_char n \<noteq> CHR ''='' \<and>
     b64_char n \<noteq> CHR '',''"
  by (rule b64_alphabet_plain) (rule b64_char_in_alphabet)


lemma sextet_bounds:
  fixes x y z :: nat
  assumes "x < 256" "y < 256" "z < 256"
  shows "x div 4 < 64" "(x mod 4) * 16 < 64" "(x mod 4) * 16 + y div 16 < 64"
    "(y mod 16) * 4 < 64" "(y mod 16) * 4 + z div 64 < 64" "z mod 64 < 64"
  using assms by simp_all

lemma unat_byte: "unat (a :: 8 word) < 256"
  using unsigned_less [of a] by simp

lemmas byte_sextets = sextet_bounds [OF unat_byte unat_byte unat_byte]

lemma b64_encode_chars:
  "c \<in> set (b64_encode bs) \<Longrightarrow> c \<in> set b64_alphabet \<or> c = CHR ''=''"
  by (induction bs rule: b64_encode.induct)
     (auto simp: Let_def b64_char_in_alphabet byte_sextets)

lemma b64_encode_no_whitespace:
  "filter (\<lambda>c. \<not> ascii_whitespace c) (b64_encode bs) = b64_encode bs"
proof -
  have "\<not> ascii_whitespace c" if "c \<in> set (b64_encode bs)" for c
    using b64_encode_chars [OF that] b64_alphabet_plain [of c]
    by (auto simp: ascii_whitespace_def)
  then show ?thesis by simp
qed

lemma b64_encode_no_comma: "CHR '','' \<notin> set (b64_encode bs)"
  using b64_encode_chars [of "CHR '',''" bs] b64_alphabet_plain [of "CHR '',''"]
  by auto

lemma length_b64_encode: "length (b64_encode bs) mod 4 = 0"
  by (induction bs rule: b64_encode.induct) (simp_all add: Let_def)

lemma strip_padding_group:
  assumes "c4 \<noteq> CHR ''=''" and "length ys mod 4 = 0"
  shows "strip_padding (c1 # c2 # c3 # c4 # ys) = c1 # c2 # c3 # c4 # strip_padding ys"
proof (cases ys)
  case Nil
  with assms show ?thesis by (simp add: strip_padding_def)
next
  case (Cons y ys')
  with assms(2) obtain y2 ys'' where "ys' = y2 # ys''"
    by (cases ys') auto
  with Cons show ?thesis
    by (simp add: strip_padding_def Let_def)
qed

lemma regroup_sextets:
  fixes p q r s t u :: nat
  shows "((p * 64 + (q * 16 + r)) * 64 + (s * 4 + t)) * 64 + u =
         (4 * p + q) * 65536 + (16 * r + s) * 256 + (64 * t + u)"
  by (simp add: algebra_simps)

lemma join_three:
  fixes x y z :: nat
  shows "((x div 4 * 64 + (x mod 4 * 16 + y div 16)) * 64 + (y mod 16 * 4 + z div 64)) * 64
           + z mod 64 = x * 65536 + y * 256 + z"
  by (simp only: regroup_sextets mult_div_mod_eq)

lemma regroup_two:
  fixes p q r s :: nat
  shows "(p * 64 + (q * 16 + r)) * 64 + s * 4 = 4 * ((4 * p + q) * 256 + (16 * r + s))"
  by (simp add: algebra_simps)

lemma regroup_one:
  fixes p q :: nat
  shows "p * 64 + q * 16 = 16 * (4 * p + q)"
  by (simp add: algebra_simps)

lemma join_two:
  fixes x y :: nat
  shows "((x div 4 * 64 + (x mod 4 * 16 + y div 16)) * 64 + y mod 16 * 4) div 4 = x * 256 + y"
  by (simp only: regroup_two mult_div_mod_eq) simp

lemma join_one:
  fixes x :: nat
  shows "(x div 4 * 64 + x mod 4 * 16) div 16 = x"
  by (simp only: regroup_one mult_div_mod_eq)

lemma decode_one:
  "decode_sextets [unat a div 4, unat a mod 4 * 16] = [char_of (unat (a :: 8 word))]"
  by (simp add: Let_def join_one)

lemma decode_two:
  "decode_sextets [unat a div 4, unat a mod 4 * 16 + unat b div 16, unat b mod 16 * 4] =
     [char_of (unat (a :: 8 word)), char_of (unat (b :: 8 word))]"
proof -
  have "((unat a div 4 * 64 + (unat a mod 4 * 16 + unat b div 16)) * 64 + unat b mod 16 * 4) div 4
      = unat a * 256 + unat b"
    by (rule join_two)
  moreover have "(unat a * 256 + unat b) div 256 = unat a"
    using unat_byte [of b] by simp
  moreover have "(unat a * 256 + unat b) mod 256 = unat b mod 256"
    by simp
  ultimately show ?thesis
    by (simp add: Let_def)
qed

lemma split_three:
  fixes x y z :: nat
  assumes "y < 256" "z < 256"
  shows "(x * 65536 + y * 256 + z) div 65536 = x"
    and "(x * 65536 + y * 256 + z) div 256 mod 256 = y"
    and "(x * 65536 + y * 256 + z) mod 256 = z"
proof -
  have low: "y * 256 + z < 65536"
    using assms by simp
  have "x * 65536 + y * 256 + z = x * 65536 + (y * 256 + z)"
    by simp
  then show "(x * 65536 + y * 256 + z) div 65536 = x"
    using low by simp
  have e: "x * 65536 + y * 256 + z = (x * 256 + y) * 256 + z"
    by simp
  then have "(x * 65536 + y * 256 + z) div 256 = x * 256 + y"
    using assms(2) by simp
  then show "(x * 65536 + y * 256 + z) div 256 mod 256 = y"
    using assms(1) by simp
  show "(x * 65536 + y * 256 + z) mod 256 = z"
    using assms(2) by (simp only: e mod_mult_self3 mod_less)
qed

lemma decode_three:
  "decode_sextets (unat a div 4 # (unat a mod 4 * 16 + unat b div 16) #
       (unat b mod 16 * 4 + unat c div 64) # unat c mod 64 # rest) =
     char_of (unat (a :: 8 word)) # char_of (unat (b :: 8 word)) # char_of (unat (c :: 8 word)) #
       decode_sextets rest"
proof -
  let ?n = "unat a * 65536 + unat b * 256 + unat c"
  have n: "((unat a div 4 * 64 + (unat a mod 4 * 16 + unat b div 16)) * 64 +
      (unat b mod 16 * 4 + unat c div 64)) * 64 + unat c mod 64 = ?n"
    by (rule join_three)
  have s: "?n div 65536 = unat a" "?n div 256 mod 256 = unat b" "?n mod 256 = unat c"
    by (rule split_three [OF unat_byte unat_byte])+
  have "char_of (?n div 65536) = char_of (unat a)"
    by (simp only: s)
  moreover have "char_of (?n div 256) = char_of (unat b)"
    using s(2) unat_byte [of b] by (simp only: char_of_quasi_inj) simp
  moreover have "char_of ?n = char_of (unat c)"
    using s(3) unat_byte [of c] by (simp only: char_of_quasi_inj) simp
  ultimately show ?thesis
    by (simp only: decode_sextets.simps Let_def n) simp
qed

lemma decode_stripped_encode:
  "length (strip_padding (b64_encode bs)) mod 4 \<noteq> 1 \<and>
   (\<exists>sx. those (map b64_index (strip_padding (b64_encode bs))) = Some sx \<and>
      decode_sextets sx = map (\<lambda>a. char_of (unat a)) bs)"
proof (induction bs rule: b64_encode.induct)
  case 1
  show ?case by (simp add: strip_padding_def)
next
  case (2 a)
  have "strip_padding (b64_encode [a]) = [b64_char (unat a div 4), b64_char (unat a mod 4 * 16)]"
    by (simp add: strip_padding_def Let_def)
  then show ?case
    by (simp add: b64_index_char byte_sextets decode_one del: decode_sextets.simps)
next
  case (3 a b)
  have "b64_char (unat b mod 16 * 4) \<noteq> CHR ''=''"
    using b64_char_plain byte_sextets(4) by blast
  then have "strip_padding (b64_encode [a, b]) =
      [b64_char (unat a div 4), b64_char (unat a mod 4 * 16 + unat b div 16),
       b64_char (unat b mod 16 * 4)]"
    by (simp add: strip_padding_def Let_def)
  then show ?case
    by (simp add: b64_index_char byte_sextets decode_two del: decode_sextets.simps)
next
  case (4 a b c rest)
  let ?g = "[b64_char (unat a div 4), b64_char (unat a mod 4 * 16 + unat b div 16),
        b64_char (unat b mod 16 * 4 + unat c div 64), b64_char (unat c mod 64)]"
  from 4 obtain sx where
    len: "length (strip_padding (b64_encode rest)) mod 4 \<noteq> 1" and
    sx: "those (map b64_index (strip_padding (b64_encode rest))) = Some sx" and
    dec: "decode_sextets sx = map (\<lambda>a. char_of (unat a)) rest"
    by blast
  have "b64_char (unat c mod 64) \<noteq> CHR ''=''"
    using b64_char_plain byte_sextets(6) by blast
  then have st: "strip_padding (b64_encode (a # b # c # rest)) =
      ?g @ strip_padding (b64_encode rest)"
    by (simp add: Let_def strip_padding_group length_b64_encode)
  have l: "length (strip_padding (b64_encode (a # b # c # rest))) mod 4 \<noteq> 1"
    using len by (simp only: st) simp
  have t: "those (map b64_index (strip_padding (b64_encode (a # b # c # rest)))) =
      Some (unat a div 4 # (unat a mod 4 * 16 + unat b div 16) #
        (unat b mod 16 * 4 + unat c div 64) # unat c mod 64 # sx)"
    using sx by (simp only: st) (simp add: b64_index_char byte_sextets)
  have d: "decode_sextets (unat a div 4 # (unat a mod 4 * 16 + unat b div 16) #
        (unat b mod 16 * 4 + unat c div 64) # unat c mod 64 # sx) =
      map (\<lambda>a. char_of (unat a)) (a # b # c # rest)"
    by (simp only: decode_three dec) simp
  from l t d show ?case by blast
qed

lemma atob_b64_encode: "atob (b64_encode bs) = Inr (map (\<lambda>a. char_of (unat a)) bs)"
proof -
  obtain sx where
    len: "length (strip_padding (b64_encode bs)) mod 4 \<noteq> 1" and
    sx: "those (map b64_index (strip_padding (b64_encode bs))) = Some sx" and
    dec: "decode_sextets sx = map (\<lambda>a. char_of (unat a)) bs"
    using decode_stripped_encode [of bs] by blast
  show ?thesis
    using len sx dec
    by (simp add: atob_def Let_def b64_encode_no_whitespace length_b64_encode)
qed

lemma byte_of_char_of: "(of_nat (of_char (char_of (unat a)) :: nat) :: 8 word) = a"
proof -
  have "(of_char (char_of (unat a)) :: nat) = unat a"
    using unat_byte [of a] by simp
  then show ?thesis by simp
qed

lemma base64ToBlob_b64_encode:
  "base64ToBlob (b64_encode bs) mimeType = Inr \<lparr>blob_bytes = bs, blob_type = mimeType\<rparr>"
proof -
  have "map (\<lambda>n. of_nat n :: 8 word) (map (\<lambda>c. of_char c :: nat)
      (map (\<lambda>a. char_of (unat a)) bs)) = bs"
    by (simp only: map_map comp_def byte_of_char_of) simp
  then show ?thesis
    by (simp add: base64ToBlob_def atob_b64_encode Let_def)
qed

lemma split_no_sep: "sep \<notin> set xs \<Longrightarrow> split sep xs = [xs]"
  by (induction xs) auto

lemma split_at_first_sep:
  "sep \<notin> set xs \<Longrightarrow> split sep (xs @ sep # ys) = xs # split sep ys"
  by (induction xs) auto

lemma blobToBase64_plain_type:
  assumes "CHR '','' \<notin> set (blob_type blob)"
  shows "blobToBase64 blob = Some (b64_encode (blob_bytes blob))"
proof -
  have pre: "CHR '','' \<notin> set (''data:'' @ blob_type blob @ '';base64'')"
    using assms by simp
  have "readAsDataURL blob =
      (''data:'' @ blob_type blob @ '';base64'') @ CHR '','' # b64_encode (blob_bytes blob)"
    by (simp add: readAsDataURL_def)
  then have "split CHR '','' (readAsDataURL blob) =
      [''data:'' @ blob_type blob @ '';base64'', b64_encode (blob_bytes blob)]"
    using split_at_first_sep [OF pre] split_no_sep [OF b64_encode_no_comma]
    by (simp only:)
  then show ?thesis
    by (simp add: blobToBase64_def Let_def)
qed

text \<open>
  For every blob whose MIME type has no comma, whatever its bytes, \<^verbatim>\<open>blobToBase64\<close>
  resolves with a string that \<^verbatim>\<open>base64ToBlob\<close> decodes to a blob of the same bytes.
\<close>

theorem blob_roundtrip_plain_type:
  assumes "CHR '','' \<notin> set (blob_type blob)"
  shows "\<exists>base64. blobToBase64 blob = Some base64 \<and>
           base64ToBlob base64 mimeType =
             Inr \<lparr>blob_bytes = blob_bytes blob, blob_type = mimeType\<rparr>"
  using blobToBase64_plain_type [OF assms] base64ToBlob_b64_encode by simp

lemma b64_encode_audio_blob: "b64_encode (blob_bytes audio_blob) = ''TWFuIQ==''"
  by (simp add: audio_blob_def b64_char_def b64_alphabet_def)

theorem blob_roundtrip_plain_type_witness:
  "CHR '','' \<notin> set (blob_type audio_blob) \<and>
   blobToBase64 audio_blob = Some ''TWFuIQ=='' \<and>
   base64ToBlob ''TWFuIQ=='' ''audio/mpeg'' =
     Inr \<lparr>blob_bytes = [0x4d, 0x61, 0x6e, 0x21], blob_type = ''audio/mpeg''\<rparr>"
proof -
  have h: "CHR '','' \<notin> set (blob_type audio_blob)"
    by (simp add: audio_blob_def)
  have e: "blobToBase64 audio_blob = Some ''TWFuIQ==''"
    by (simp only: blobToBase64_plain_type [OF h] b64_encode_audio_blob)
  obtain base64 where "blobToBase64 audio_blob = Some base64"
    and "base64ToBlob base64 ''audio/mpeg'' =
       Inr \<lparr>blob_bytes = blob_bytes audio_blob, blob_type = ''audio/mpeg''\<rparr>"
    using blob_roundtrip_plain_type [OF h, of "''audio/mpeg''"] by blast
  with e have "base64ToBlob ''TWFuIQ=='' ''audio/mpeg'' =
       Inr \<lparr>blob_bytes = [0x4d, 0x61, 0x6e, 0x21], blob_type = ''audio/mpeg''\<rparr>"
    by (simp add: audio_blob_def)
  with h e show ?thesis by blast
qed

text \<open>
  Claim C10. Decoding with \<^verbatim>\<open>base64ToBlob\<close> what \<^verbatim>\<open>blobToBase64\<close> gives should return
  the bytes of the blob, for every blob. For a blob whose MIME type has a comma the code
  does not: \<^verbatim>\<open>split(',')[1]\<close> is then a piece of the data URL's prefix, not the base64
  data, and \<^verbatim>\<open>atob\<close> throws on it.
\<close>

theorem blob_roundtrip_comma_type:
  "blobToBase64 comma_blob = Some ''opus;base64'' \<and>
   base64ToBlob ''opus;base64'' (blob_type comma_blob) = Inl InvalidCharacterError"
  by (simp add: comma_blob_def blobToBase64_def readAsDataURL_def Let_def
      base64ToBlob_def atob_def ascii_whitespace_def strip_padding_def b64_index_def
      b64_alphabet_def)

end
